theory Spec2Isabelle
  imports Complex_Main "HOL-Library.Word" "HOL-Library.Log_Nat"
begin

unbundle bit_operations_syntax

section \<open>8-bit Studio: the frame decoding, quantization and re-encoding core of App.tsx\<close>

text \<open>
  The definitions below follow \<^verbatim>\<open>src/src/App.tsx\<close> function by function and keep
  its names. JavaScript numbers that the program only ever uses as counts, sizes and
  indices are integers here; where a function tests for \<^verbatim>\<open>NaN\<close> or infinity the
  argument is a \<open>jsnum\<close>. Typed arrays of bytes are lists of 8-bit words.
\<close>

subsection \<open>JavaScript numbers\<close>

text \<open>
  A JavaScript number is \<^verbatim>\<open>NaN\<close>, one of the two infinities, or a finite value.
  Every finite double is a rational, and the only arithmetic done on a \<open>jsnum\<close> here is
  a comparison with zero and \<^verbatim>\<open>Math.round\<close>, both exact on doubles.
\<close>

datatype jsnum = NaN | PosInf | NegInf | Fin rat

text \<open>\<^verbatim>\<open>Math.round\<close>: the nearest integer, a tie going towards plus infinity.\<close>

definition js_round :: "rat \<Rightarrow> int" where
  "js_round x = \<lfloor>x + 1 / 2\<rfloor>"

subsection \<open>clampFrameDelay (App.tsx 1227-1235)\<close>

text \<open>
  \<^verbatim>\<open>
  function clampFrameDelay(delay: number) {
      if (!Number.isFinite(delay) || delay <= 0) { return 6; }
      return Math.max(1, Math.min(65535, Math.round(delay)));
  }
  \<close>
\<close>

definition clampFrameDelay :: "jsnum \<Rightarrow> int" where
  "clampFrameDelay delay =
     (case delay of
        Fin d \<Rightarrow> (if d \<le> 0 then 6 else max 1 (min 65535 (js_round d)))
      | _ \<Rightarrow> 6)"

subsection \<open>getSafeGifPixelSize (App.tsx 1237-1270)\<close>

definition MAX_GIF_PIXELS :: int where
  "MAX_GIF_PIXELS = 4000000"

text \<open>
  \<^verbatim>\<open>Math.floor(Math.sqrt(MAX_GIF_PIXELS / n))\<close> for an integer \<open>n \<ge> 1\<close> is the largest
  \<open>k\<close> with \<open>k\<^sup>2 * n \<le> MAX_GIF_PIXELS\<close>, and that \<open>k\<close> is at most 2000. The search below
  computes it; \<open>floorSqrtQuotient_eq\<close> proves that it is the floor of the real square
  root.
\<close>

primrec largestSquareUpTo :: "int \<Rightarrow> nat \<Rightarrow> nat" where
  "largestSquareUpTo n 0 = 0"
| "largestSquareUpTo n (Suc k) =
     (if (int (Suc k))\<^sup>2 * n \<le> MAX_GIF_PIXELS then Suc k else largestSquareUpTo n k)"

definition floorSqrtQuotient :: "int \<Rightarrow> int" where
  "floorSqrtQuotient n = int (largestSquareUpTo n 2000)"


subsection \<open>Strings and colours\<close>

text \<open>
  Strings are lists of characters. The colour strings of this program are ASCII
  (\<^verbatim>\<open>#rrggbb\<close>), and \<^verbatim>\<open>String.prototype.toLowerCase\<close> is modelled on ASCII: the
  letters A to Z go to a to z and every other character stays.
\<close>

definition lowerChar :: "char \<Rightarrow> char" where
  "lowerChar c =
     (case map_of (zip ''ABCDEFGHIJKLMNOPQRSTUVWXYZ'' ''abcdefghijklmnopqrstuvwxyz'') c of
        Some l \<Rightarrow> l
      | None \<Rightarrow> c)"

definition toLowerCase :: "string \<Rightarrow> string" where
  "toLowerCase str = map lowerChar str"

text \<open>
  The decoded colour \<^verbatim>\<open>{ r, g, b }\<close> that \<^verbatim>\<open>hexToRgb\<close> returns.
  \<^verbatim>\<open>hexToRgb\<close> is imported from \<^verbatim>\<open>@/lib/utils\<close>; the functions below that call it
  take it as a parameter.
\<close>

datatype RGB = RGB (red: int) (green: int) (blue: int)

text \<open>
  The values a \<^verbatim>\<open>throw\<close> of the modelled functions can carry: an explicit
  \<^verbatim>\<open>new Error(message)\<close>, or the \<^verbatim>\<open>TypeError\<close> of reading a property of
  \<^verbatim>\<open>undefined\<close>.
\<close>

datatype js_error = Error string | TypeError

subsection \<open>buildPaletteLookup (App.tsx 1285-1350)\<close>

text \<open>
  \<^verbatim>\<open>Array.from(new Set(xs))\<close>: the distinct elements of \<open>xs\<close> in the order of their
  first occurrence.
\<close>

definition setValues :: "'a list \<Rightarrow> 'a list" where
  "setValues xs = foldl (\<lambda>seen x. if x \<in> set seen then seen else seen @ [x]) [] xs"

text \<open>
  \<^verbatim>\<open>
  const normalizedPalette = Array.from(new Set(
      (palette.length ? palette : ["#000000", "#ffffff"]).map((hex) => hex.toLowerCase())));
  if (!normalizedPalette.length) {
      normalizedPalette.push("#000000", "#ffffff");
  } else if (normalizedPalette.length === 1) {
      normalizedPalette.push(normalizedPalette[0]);
  }
  \<close>
\<close>

definition normalizedPalette :: "string list \<Rightarrow> string list" where
  "normalizedPalette palette =
     (let normalized =
            setValues (map toLowerCase
              (if palette \<noteq> [] then palette else [''#000000'', ''#ffffff'']))
      in if normalized = [] then normalized @ [''#000000'', ''#ffffff'']
         else if length normalized = 1 then normalized @ [normalized ! 0]
         else normalized)"

text \<open>
  \<^verbatim>\<open>1 << n\<close> on JavaScript's 32-bit integers: the shift count is taken modulo 32 and
  the result is read as a signed 32-bit value.
\<close>

definition shiftLeftOne :: "nat \<Rightarrow> int" where
  "shiftLeftOne n = sint (push_bit (n mod 32) (1 :: 32 word))"

text \<open>
  \<^verbatim>\<open>
  const cappedLength = Math.min(256, normalizedPalette.length);
  const targetSize = Math.max(2, 1 << Math.ceil(Math.log2(Math.max(2, cappedLength))));
  \<close>
  \<^verbatim>\<open>Math.ceil(Math.log2(n))\<close> is \<open>ceillog2 n\<close> of the library, the ceiling of the real
  logarithm to base 2.
\<close>

definition targetSize :: "string list \<Rightarrow> nat" where
  "targetSize palette =
     (let cappedLength = min 256 (length (normalizedPalette palette))
      in nat (max 2 (shiftLeftOne (ceillog2 (max 2 cappedLength)))))"

text \<open>
  \<^verbatim>\<open>
  const fallbackHex = normalizedPalette[normalizedPalette.length - 1];
  const paddedPalette = normalizedPalette.slice(0, targetSize);
  while (paddedPalette.length < targetSize) { paddedPalette.push(fallbackHex); }
  \<close>
  \<open>normalizedPalette\<close> has at least two entries, so the read of its last entry is in
  range.
\<close>

definition fallbackHex :: "string list \<Rightarrow> string" where
  "fallbackHex palette =
     (let normalized = normalizedPalette palette in normalized ! (length normalized - 1))"

definition paddedPalette :: "string list \<Rightarrow> string list" where
  "paddedPalette palette =
     (let padded = take (targetSize palette) (normalizedPalette palette)
      in padded @ replicate (targetSize palette - length padded) (fallbackHex palette))"

text \<open>
  \<^verbatim>\<open>
  const colorIndexMap = new Map<string, number>();
  paddedPalette.forEach((hex, index) => {
      if (!colorIndexMap.has(hex)) { colorIndexMap.set(hex, index); }
  });
  \<close>
\<close>

definition buildColorIndexMap :: "string list \<Rightarrow> (string \<rightharpoonup> nat)" where
  "buildColorIndexMap padded =
     fold (\<lambda>(index, hex) m. if m hex = None then m(hex \<mapsto> index) else m)
       (enumerate 0 padded) Map.empty"

text \<open>
  \<^verbatim>\<open>(r << 16) | (g << 8) | b\<close> on JavaScript's 32-bit integers.
\<close>

definition packRgb :: "RGB \<Rightarrow> int" where
  "packRgb c =
     sint (push_bit 16 (word_of_int (red c)) OR push_bit 8 (word_of_int (green c))
           OR (word_of_int (blue c) :: 32 word))"

record PaletteLookup =
  paletteColors :: "int list"
  colorIndexMap :: "string \<rightharpoonup> nat"
  fallbackIndex :: nat

text \<open>
  \<^verbatim>\<open>
  const paletteColors = paddedPalette.map((hex) => {
      const { r, g, b } = hexToRgb(hex);
      return (r << 16) | (g << 8) | b;
  });
  ...
  const fallbackIndex = colorIndexMap.get(fallbackHex) ?? 0;
  return { paletteColors, colorIndexMap, fallbackIndex };
  \<close>
\<close>

definition buildPaletteLookup :: "(string \<Rightarrow> RGB) \<Rightarrow> string list \<Rightarrow> PaletteLookup" where
  "buildPaletteLookup hexToRgb palette =
     (let padded = paddedPalette palette;
          indexMap = buildColorIndexMap padded
      in \<lparr> paletteColors = map (\<lambda>hex. packRgb (hexToRgb hex)) padded,
           colorIndexMap = indexMap,
           fallbackIndex = (case indexMap (fallbackHex palette) of Some i \<Rightarrow> i | None \<Rightarrow> 0) \<rparr>)"

subsection \<open>colorGridToIndexedPixels (App.tsx 1352-1404)\<close>

text \<open>
  \<^verbatim>\<open>colors[y]?.[x]?.toLowerCase() ?? ""\<close>: a cell outside the grid reads as the empty
  string.
\<close>

definition cellHex :: "string list list \<Rightarrow> nat \<Rightarrow> nat \<Rightarrow> string" where
  "cellHex colors y x =
     (if y < length colors \<and> x < length (colors ! y) then toLowerCase (colors ! y ! x)
      else [])"

text \<open>\<^verbatim>\<open>colorIndexMap.get(colorHex) ?? fallbackIndex\<close>\<close>

definition paletteIndexOf :: "(string \<rightharpoonup> nat) \<Rightarrow> nat \<Rightarrow> string \<Rightarrow> nat" where
  "paletteIndexOf indexMap fallback colorHex =
     (case indexMap colorHex of Some i \<Rightarrow> i | None \<Rightarrow> fallback)"

text \<open>
  \<^verbatim>\<open>
  const sampleHeight = colors.length;
  const sampleWidth = colors[0]?.length ?? 0;
  if (sampleHeight === 0 || sampleWidth === 0) { throw new Error("Color grid is empty."); }
  const finalWidth = sampleWidth * pixelSize;
  const finalHeight = sampleHeight * pixelSize;
  const indexedPixels = new Uint8Array(finalWidth * finalHeight);
  for (let y = 0; y < sampleHeight; y++) {
      for (let dy = 0; dy < pixelSize; dy++) {
          const row = y * pixelSize + dy;
          const rowOffset = row * finalWidth;
          for (let x = 0; x < sampleWidth; x++) {
              const colorHex = colors[y]?.[x]?.toLowerCase() ?? "";
              const paletteIndex = colorIndexMap.get(colorHex) ?? fallbackIndex;
              for (let dx = 0; dx < pixelSize; dx++) {
                  const column = x * pixelSize + dx;
                  indexedPixels[rowOffset + column] = paletteIndex;
              }
          }
      }
  }
  return indexedPixels;
  \<close>
  The four loops are four nested folds over the buffer. A \<^verbatim>\<open>Uint8Array\<close> stores a
  number modulo 256 (\<open>of_nat\<close> into an 8-bit word), and a write outside the array does
  nothing, as a list update outside the list does.
\<close>

definition colorGridToIndexedPixels ::
  "string list list \<Rightarrow> nat \<Rightarrow> (string \<rightharpoonup> nat) \<Rightarrow> nat \<Rightarrow> js_error + 8 word list" where
  "colorGridToIndexedPixels colors pixelSize indexMap fallback =
     (let sampleHeight = length colors;
          sampleWidth = (case colors of [] \<Rightarrow> 0 | firstRow # _ \<Rightarrow> length firstRow)
      in if sampleHeight = 0 \<or> sampleWidth = 0 then Inl (Error ''Color grid is empty.'')
         else
           let finalWidth = sampleWidth * pixelSize;
               finalHeight = sampleHeight * pixelSize;
               indexedPixels = replicate (finalWidth * finalHeight) (0 :: 8 word)
           in Inr
             (fold (\<lambda>y. fold (\<lambda>dy.
                  let row = y * pixelSize + dy;
                      rowOffset = row * finalWidth
                  in fold (\<lambda>x.
                       let colorHex = cellHex colors y x;
                           paletteIndex = paletteIndexOf indexMap fallback colorHex
                       in fold (\<lambda>dx buffer.
                            let column = x * pixelSize + dx
                            in buffer[rowOffset + column := of_nat paletteIndex])
                          [0..<pixelSize])
                     [0..<sampleWidth])
                [0..<pixelSize])
              [0..<sampleHeight] indexedPixels))"

subsection \<open>Colour strings used to instantiate the functions\<close>

text \<open>
  Modelled from the spec: \<^verbatim>\<open>hexToRgb\<close> of \<^verbatim>\<open>@/lib/utils\<close> is imported by
  App.tsx but is not among the source files. The spec's data model only says that a
  palette entry pairs a hex string with its decoded RGB triple, so the model decodes a
  well-formed \<^verbatim>\<open>#rrggbb\<close> string digit by digit. On any other string it returns black;
  nothing is claimed about such strings. The general theorems hold for every
  \<^verbatim>\<open>hexToRgb\<close>; this one instantiates them at concrete palettes.
\<close>

definition hexDigitValue :: "char \<Rightarrow> int option" where
  "hexDigitValue c =
     map_of (zip ''0123456789abcdefABCDEF''
               [0, 1, 2, 3, 4, 5, 6, 7, 8, 9, 10, 11, 12, 13, 14, 15, 10, 11, 12, 13, 14, 15]) c"

definition hexPair :: "char \<Rightarrow> char \<Rightarrow> int" where
  "hexPair hi lo =
     (case (hexDigitValue hi, hexDigitValue lo) of
        (Some h, Some l) \<Rightarrow> 16 * h + l
      | _ \<Rightarrow> 0)"

definition hexToRgb :: "string \<Rightarrow> RGB" where
  "hexToRgb hex =
     (case hex of
        [hash, r1, r2, g1, g2, b1, b2] \<Rightarrow> RGB (hexPair r1 r2) (hexPair g1 g2) (hexPair b1 b2)
      | _ \<Rightarrow> RGB 0 0 0)"

text \<open>
  A palette of 257 distinct lower-case colours, \<^verbatim>\<open>#000000\<close> to \<^verbatim>\<open>#000100\<close>: one more
  than the cap of 256.
\<close>

definition hexDigit :: "nat \<Rightarrow> char" where
  "hexDigit d = ''0123456789abcdef'' ! (d mod 16)"

definition hexColour :: "nat \<Rightarrow> string" where
  "hexColour n = ''#000'' @ [hexDigit (n div 256), hexDigit (n div 16), hexDigit n]"

definition palette257 :: "string list" where
  "palette257 = map hexColour [0..<257]"

subsection \<open>quantizeFramePixels (App.tsx 1164-1225)\<close>

text \<open>
  \<^verbatim>\<open>type PaletteEntry = { hex: string; rgb: ReturnType<typeof hexToRgb> }\<close>, and the
  palette data of the component (App.tsx 257-264):
  \<^verbatim>\<open>palette.colors.map((hex) => ({ hex, rgb: hexToRgb(hex) }))\<close>.
\<close>

record PaletteEntry =
  hex :: string
  rgb :: RGB

definition paletteDataOf :: "(string \<Rightarrow> RGB) \<Rightarrow> string list \<Rightarrow> PaletteEntry list" where
  "paletteDataOf decode colors = map (\<lambda>c. \<lparr> hex = c, rgb = decode c \<rparr>) colors"


text \<open>
  \<^verbatim>\<open>framePixels[index]\<close> on a \<^verbatim>\<open>Uint8ClampedArray\<close>: the byte as a number, or
  \<^verbatim>\<open>undefined\<close> (\<open>None\<close>) outside the array.
\<close>

definition readByte :: "8 word list \<Rightarrow> int \<Rightarrow> int option" where
  "readByte pixels index =
     (if 0 \<le> index \<and> nat index < length pixels then Some (uint (pixels ! nat index)) else None)"










subsection \<open>extractGifSource and clearFrameRegion (App.tsx 1406-1480)\<close>





text \<open>
  \<^verbatim>\<open>buffer.fill(value, start, end)\<close> on a typed array, for non-negative \<open>start\<close> and
  \<open>end\<close>: the elements from \<open>start\<close> up to but not including \<open>end\<close> that exist are set.
\<close>

definition fillRange :: "8 word list \<Rightarrow> 8 word \<Rightarrow> nat \<Rightarrow> nat \<Rightarrow> 8 word list" where
  "fillRange buffer v start end =
     map (\<lambda>k. if start \<le> k \<and> k < end then v else buffer ! k) [0..<length buffer]"




subsection \<open>The disposal state machine, as the specification describes it\<close>










subsection \<open>The job-id discipline of the component (App.tsx 349-439 and 706-720)\<close>

text \<open>
  The part of the component's state that a conversion job reads or writes:
  \<^verbatim>\<open>jobRef.current\<close>, the displayed \<^verbatim>\<open>resultPreview\<close>, \<^verbatim>\<open>vectorData\<close>, \<^verbatim>\<open>status\<close>
  and \<^verbatim>\<open>isProcessing\<close>, whether a source is loaded (\<^verbatim>\<open>sourcePreview || sourceGif\<close>),
  and the log of the URLs handed to \<^verbatim>\<open>URL.revokeObjectURL\<close>. JavaScript runs each
  callback to its end before the next one starts, so a run of the component is a list of
  events, each a function on this state; a state setter is an assignment. The job counter
  is a natural number.
\<close>

record VectorInput =
  viColors :: "string list list"
  viWidth :: nat
  viHeight :: nat

record VectorData =
  vdColors :: "string list list"
  vdWidth :: nat
  vdHeight :: nat
  vdPixelSize :: nat

record AppState =
  jobRef :: nat
  resultPreview :: "string option"
  vectorData :: "VectorData option"
  status :: string
  isProcessing :: bool
  hasSource :: bool
  revokedUrls :: "string list"

text \<open>
  \<^verbatim>\<open>
  const fail = (message: string, error?: unknown) => {
      if (jobRef.current !== jobId) return;
      const detail = describeError(error);
      setStatus(detail ? `${message}: ${detail}` : message);
      setIsProcessing(false);
  };
  \<close>
  \<open>detail\<close> is the text that \<^verbatim>\<open>describeError\<close> returns for the error.
\<close>

definition fail :: "nat \<Rightarrow> string \<Rightarrow> string \<Rightarrow> AppState \<Rightarrow> AppState" where
  "fail jobId message detail st =
     (if jobRef st \<noteq> jobId then st
      else st\<lparr> status := (if detail \<noteq> [] then message @ '': '' @ detail else message),
               isProcessing := False \<rparr>)"

text \<open>
  \<^verbatim>\<open>
  const finalize = (previewUrl, vector, nextStatus = "") => {
      if (jobRef.current !== jobId) {
          if (previewUrl.startsWith("blob:")) { URL.revokeObjectURL(previewUrl); }
          return;
      }
      setResultPreview(previewUrl);
      if (vector) {
          setVectorData({ colors: vector.colors, width: vector.width,
                          height: vector.height, pixelSize });
      }
      setStatus(nextStatus);
      setIsProcessing(false);
  };
  \<close>
  \<open>jobId\<close> and \<open>pixelSize\<close> are the values the closure of \<^verbatim>\<open>convertImage(jobId)\<close> holds.
\<close>

definition finalize ::
  "nat \<Rightarrow> nat \<Rightarrow> string \<Rightarrow> VectorInput option \<Rightarrow> string \<Rightarrow> AppState \<Rightarrow> AppState" where
  "finalize jobId pixelSize previewUrl vector nextStatus st =
     (if jobRef st \<noteq> jobId
      then (if take 5 previewUrl = ''blob:''
            then st\<lparr> revokedUrls := revokedUrls st @ [previewUrl] \<rparr>
            else st)
      else
        let shown = st\<lparr> resultPreview := Some previewUrl \<rparr>;
            withVector =
              (case vector of
                 Some v \<Rightarrow> shown\<lparr> vectorData := Some \<lparr> vdColors = viColors v, vdWidth = viWidth v,
                                                        vdHeight = viHeight v, vdPixelSize = pixelSize \<rparr> \<rparr>
               | None \<Rightarrow> shown)
        in withVector\<lparr> status := nextStatus, isProcessing := False \<rparr>)"

text \<open>
  \<^verbatim>\<open>
  const rebuild = useCallback(() => {
      if (!sourcePreview && !sourceGif) { setStatus("Please upload an image first."); return; }
      const jobId = jobRef.current + 1;
      jobRef.current = jobId;
      setIsProcessing(true);
      setStatus("Building pixel preview...");
      setVectorData(null);
      setResultPreview(null);
      convertImage(jobId);
  }, ...);
  \<close>
  \<open>rebuild\<close> is the state when \<^verbatim>\<open>convertImage(jobId)\<close> is called; the job it starts has
  the id \<open>jobRef (rebuild st)\<close>, and its completion is a later event.
\<close>

definition rebuild :: "AppState \<Rightarrow> AppState" where
  "rebuild st =
     (if \<not> hasSource st then st\<lparr> status := ''Please upload an image first.'' \<rparr>
      else st\<lparr> jobRef := jobRef st + 1, isProcessing := True,
                status := ''Building pixel preview...'', vectorData := None,
                resultPreview := None \<rparr>)"

text \<open>
  The events of a run: a trigger (\<^verbatim>\<open>rebuild\<close>), and the completion of the job with a
  given id, which calls \<^verbatim>\<open>finalize\<close> or \<^verbatim>\<open>fail\<close> of that job's closure. The handler
  \<^verbatim>\<open>image.onload\<close> of the still-image path first returns when
  \<^verbatim>\<open>jobRef.current !== jobId\<close> and otherwise ends in one of the two.
\<close>

datatype event =
    Trigger
  | Finalize nat nat string "VectorInput option" string
  | Fail nat string string
  | ImageLoaded nat nat "string + string \<times> VectorInput"

definition imageOnload :: "nat \<Rightarrow> nat \<Rightarrow> string + string \<times> VectorInput \<Rightarrow> AppState \<Rightarrow> AppState" where
  "imageOnload jobId pixelSize outcome st =
     (if jobRef st \<noteq> jobId then st
      else (case outcome of
              Inr (previewUrl, vector) \<Rightarrow> finalize jobId pixelSize previewUrl (Some vector) [] st
            | Inl detail \<Rightarrow> fail jobId ''Failed to generate pixel art.'' detail st))"

fun step :: "event \<Rightarrow> AppState \<Rightarrow> AppState" where
  "step Trigger st = rebuild st"
| "step (Finalize jobId pixelSize previewUrl vector nextStatus) st =
     finalize jobId pixelSize previewUrl vector nextStatus st"
| "step (Fail jobId message detail) st = fail jobId message detail st"
| "step (ImageLoaded jobId pixelSize outcome) st = imageOnload jobId pixelSize outcome st"

definition run :: "event list \<Rightarrow> AppState \<Rightarrow> AppState" where
  "run events st = fold step events st"

text \<open>A state of the component with a source loaded and nothing converted yet.\<close>

definition loadedState :: AppState where
  "loadedState =
     \<lparr> jobRef = 0, resultPreview = None, vectorData = None, status = [],
       isProcessing = False, hasSource = True, revokedUrls = [] \<rparr>"

section \<open>Properties\<close>

subsection \<open>The block-size search\<close>

lemma largestSquareUpTo_le: "largestSquareUpTo n b \<le> b"
  by (induction b) auto

lemma largestSquareUpTo_fits:
  "(int (largestSquareUpTo n b))\<^sup>2 * n \<le> MAX_GIF_PIXELS"
  by (induction b) (auto simp: MAX_GIF_PIXELS_def)

lemma largestSquareUpTo_greatest:
  "k \<le> b \<Longrightarrow> (int k)\<^sup>2 * n \<le> MAX_GIF_PIXELS \<Longrightarrow> k \<le> largestSquareUpTo n b"
proof (induction b)
  case 0
  then show ?case by simp
next
  case (Suc b)
  show ?case
  proof (cases "k = Suc b")
    case True
    with Suc.prems show ?thesis by simp
  next
    case False
    with Suc.prems have "k \<le> b" by simp
    from Suc.IH [OF this Suc.prems(2)] show ?thesis
      using largestSquareUpTo_le [of n b] by simp
  qed
qed

lemma square_fits_bound:
  assumes "1 \<le> n" and "(int k)\<^sup>2 * n \<le> MAX_GIF_PIXELS"
  shows "k \<le> 2000"
proof (rule ccontr)
  assume "\<not> k \<le> 2000"
  then have "2001 \<le> int k" by simp
  then have "2001 * 2001 \<le> int k * int k"
    by (intro mult_mono) simp_all
  then have "4004001 \<le> (int k)\<^sup>2" by (simp add: power2_eq_square)
  moreover have "(int k)\<^sup>2 * 1 \<le> (int k)\<^sup>2 * n"
    using assms(1) by (intro mult_left_mono) simp_all
  ultimately show False using assms(2) by (simp add: MAX_GIF_PIXELS_def)
qed

lemma floorSqrtQuotient_fits:
  "(floorSqrtQuotient n)\<^sup>2 * n \<le> MAX_GIF_PIXELS"
  unfolding floorSqrtQuotient_def by (rule largestSquareUpTo_fits)

lemma floorSqrtQuotient_nonneg: "0 \<le> floorSqrtQuotient n"
  by (simp add: floorSqrtQuotient_def)

lemma floorSqrtQuotient_greatest:
  assumes "1 \<le> n" and "0 \<le> k" and "k\<^sup>2 * n \<le> MAX_GIF_PIXELS"
  shows "k \<le> floorSqrtQuotient n"
proof -
  from assms(2,3) have fits: "(int (nat k))\<^sup>2 * n \<le> MAX_GIF_PIXELS" by simp
  from square_fits_bound [OF assms(1) fits] have "nat k \<le> 2000" .
  from largestSquareUpTo_greatest [OF this fits] show ?thesis
    using assms(2) by (simp add: floorSqrtQuotient_def)
qed


lemma floorSqrtQuotient_eq:
  assumes "1 \<le> n"
  shows "floorSqrtQuotient n = \<lfloor>sqrt (real_of_int MAX_GIF_PIXELS / real_of_int n)\<rfloor>"
proof -
  let ?k = "floorSqrtQuotient n"
  let ?q = "real_of_int MAX_GIF_PIXELS / real_of_int n"
  have npos: "0 < real_of_int n" using assms by simp
  have k0: "0 \<le> ?k" by (rule floorSqrtQuotient_nonneg)
  have "real_of_int (?k\<^sup>2 * n) \<le> real_of_int MAX_GIF_PIXELS"
    using floorSqrtQuotient_fits [of n] by (simp only: of_int_le_iff)
  then have "(real_of_int ?k)\<^sup>2 \<le> ?q"
    using npos by (simp add: pos_le_divide_eq)
  then have lower: "real_of_int ?k \<le> sqrt ?q"
    using k0 by (simp add: real_le_rsqrt)
  have "\<not> (?k + 1)\<^sup>2 * n \<le> MAX_GIF_PIXELS"
  proof
    assume "(?k + 1)\<^sup>2 * n \<le> MAX_GIF_PIXELS"
    from floorSqrtQuotient_greatest [OF assms _ this] k0 show False by simp
  qed
  then have "real_of_int MAX_GIF_PIXELS < real_of_int ((?k + 1)\<^sup>2 * n)"
    by (simp only: of_int_less_iff not_le)
  then have "?q < (real_of_int ?k + 1)\<^sup>2"
    using npos by (simp add: pos_divide_less_eq)
  then have upper: "sqrt ?q < real_of_int ?k + 1"
    using k0 by (simp add: real_less_lsqrt)
  from lower upper show ?thesis by linarith
qed

subsection \<open>getSafeGifPixelSize\<close>













subsection \<open>clampFrameDelay\<close>

lemma js_round_near: "\<bar>of_int (js_round x) - x\<bar> \<le> 1 / 2"
  unfolding js_round_def by linarith

lemma js_round_in_range:
  assumes "1 / 2 \<le> d" and "d < 65535 + 1 / 2"
  shows "1 \<le> js_round d \<and> js_round d \<le> 65535"
  using assms unfolding js_round_def by (simp add: le_floor_iff floor_less_iff)

text \<open>
  Claim C9: clampFrameDelay returns 6 when the delay is not finite or is at most 0, and
  otherwise the delay rounded (to the nearest integer) and clamped to the range 1 to
  65535. In particular 0, -5, NaN and 100000 give 6, 6, 6 and 65535.
\<close>

theorem clampFrameDelay_spec:
  "clampFrameDelay NaN = 6 \<and> clampFrameDelay PosInf = 6 \<and> clampFrameDelay NegInf = 6
   \<and> (d \<le> 0 \<longrightarrow> clampFrameDelay (Fin d) = 6)
   \<and> (0 < d \<longrightarrow> clampFrameDelay (Fin d) = max 1 (min 65535 (js_round d))
         \<and> 1 \<le> clampFrameDelay (Fin d) \<and> clampFrameDelay (Fin d) \<le> 65535)
   \<and> (1 / 2 \<le> d \<and> d < 65535 + 1 / 2 \<longrightarrow> clampFrameDelay (Fin d) = js_round d
         \<and> \<bar>of_int (clampFrameDelay (Fin d)) - d\<bar> \<le> 1 / 2)
   \<and> clampFrameDelay (Fin 0) = 6 \<and> clampFrameDelay (Fin (- 5)) = 6
   \<and> clampFrameDelay (Fin 100000) = 65535"
  using js_round_in_range [of d] js_round_near [of d]
  by (auto simp add: clampFrameDelay_def js_round_def)

theorem clampFrameDelay_spec_witness:
  "(- 5 :: rat) \<le> 0 \<and> clampFrameDelay (Fin (- 5)) = 6
   \<and> (0 :: rat) < 5 / 2 \<and> (1 / 2 :: rat) \<le> 5 / 2 \<and> (5 / 2 :: rat) < 65535 + 1 / 2
   \<and> clampFrameDelay (Fin (5 / 2)) = js_round (5 / 2)
   \<and> 1 \<le> clampFrameDelay (Fin (5 / 2)) \<and> clampFrameDelay (Fin (5 / 2)) \<le> 65535"
  using clampFrameDelay_spec [of "- 5"] clampFrameDelay_spec [of "5 / 2"]
  by simp

subsection \<open>buildPaletteLookup\<close>

lemma shiftLeftOne_small: "e \<le> 8 \<Longrightarrow> shiftLeftOne e = 2 ^ e"
proof -
  assume "e \<le> 8"
  then have "e \<in> {0, 1, 2, 3, 4, 5, 6, 7, 8}" by auto
  then show ?thesis by (auto simp: shiftLeftOne_def)
qed

lemma setValues_step_set:
  "set (foldl (\<lambda>seen x. if x \<in> set seen then seen else seen @ [x]) acc xs) = set acc \<union> set xs"
  by (induction xs arbitrary: acc) auto

lemma setValues_step_distinct:
  "distinct acc \<Longrightarrow> distinct (foldl (\<lambda>seen x. if x \<in> set seen then seen else seen @ [x]) acc xs)"
  by (induction xs arbitrary: acc) auto

lemma set_setValues [simp]: "set (setValues xs) = set xs"
  by (simp add: setValues_def setValues_step_set)

lemma distinct_setValues [simp]: "distinct (setValues xs)"
  by (simp add: setValues_def setValues_step_distinct)

lemma setValues_Nil_iff [simp]: "setValues xs = [] \<longleftrightarrow> xs = []"
  using set_setValues [of xs] by (metis set_empty)

lemma setValues_distinct_id_aux:
  "distinct (acc @ xs) \<Longrightarrow> foldl (\<lambda>seen x. if x \<in> set seen then seen else seen @ [x]) acc xs = acc @ xs"
  by (induction xs arbitrary: acc) auto

lemma setValues_distinct_id: "distinct xs \<Longrightarrow> setValues xs = xs"
  using setValues_distinct_id_aux [of "[]" xs] by (simp add: setValues_def)

lemma normalizedPalette_length: "2 \<le> length (normalizedPalette palette)"
proof -
  let ?n = "setValues (map toLowerCase (if palette \<noteq> [] then palette else [''#000000'', ''#ffffff'']))"
  have "?n \<noteq> []" by simp
  then have "1 \<le> length ?n" by (cases ?n) simp_all
  then show ?thesis
    by (cases "length ?n = 1") (auto simp: normalizedPalette_def Let_def)
qed

lemma targetSize_exponent:
  "1 \<le> ceillog2 (min 256 (length (normalizedPalette palette)))
   \<and> ceillog2 (min 256 (length (normalizedPalette palette))) \<le> 8"
proof -
  let ?c = "min 256 (length (normalizedPalette palette))"
  have c2: "2 \<le> ?c" using normalizedPalette_length [of palette] by simp
  then have c0: "0 < ?c" by linarith
  have "?c \<le> 2 ^ 8" by simp
  then have e8: "ceillog2 ?c \<le> 8" by (simp only: ceillog2_le_iff [OF c0])
  have "2 ^ 1 < 2 * ?c" using c2 by simp
  then have e1: "1 \<le> ceillog2 ?c" by (simp only: ceillog2_ge_iff [OF c0])
  from e1 e8 show ?thesis by simp
qed

lemma targetSize_eq:
  "targetSize palette = 2 ^ ceillog2 (min 256 (length (normalizedPalette palette)))"
proof -
  let ?c = "min 256 (length (normalizedPalette palette))"
  have c2: "2 \<le> ?c" using normalizedPalette_length [of palette] by simp
  then have m: "max 2 ?c = ?c" by simp
  from targetSize_exponent [of palette] have e1: "1 \<le> ceillog2 ?c" and e8: "ceillog2 ?c \<le> 8"
    by simp_all
  have "(2::int) ^ 1 \<le> 2 ^ ceillog2 ?c" using e1 by (intro power_increasing) simp_all
  then have "max 2 ((2::int) ^ ceillog2 ?c) = 2 ^ ceillog2 ?c" by simp
  then show ?thesis
    by (simp add: targetSize_def Let_def m shiftLeftOne_small [OF e8] nat_power_eq)
qed

lemma targetSize_covers: "min 256 (length (normalizedPalette palette)) \<le> targetSize palette"
  by (simp only: targetSize_eq le_two_power_ceillog2)

lemma targetSize_bounds: "2 \<le> targetSize palette \<and> targetSize palette \<le> 256"
proof -
  let ?e = "ceillog2 (min 256 (length (normalizedPalette palette)))"
  from targetSize_exponent [of palette] have e: "1 \<le> ?e" "?e \<le> 8" by simp_all
  have "(2::nat) ^ 1 \<le> 2 ^ ?e" using e(1) by (intro power_increasing) simp_all
  moreover have "(2::nat) ^ ?e \<le> 2 ^ 8" using e(2) by (intro power_increasing) simp_all
  ultimately show ?thesis by (simp add: targetSize_eq)
qed

lemma length_paddedPalette [simp]: "length (paddedPalette palette) = targetSize palette"
  by (simp add: paddedPalette_def Let_def)

lemma buildColorIndexMap_fold:
  "fold (\<lambda>(index, hex) m. if m hex = None then m(hex \<mapsto> index) else m) (enumerate n xs) m0 k =
     (case m0 k of
        Some i \<Rightarrow> Some i
      | None \<Rightarrow> if k \<in> set xs then Some (n + length (takeWhile (\<lambda>y. y \<noteq> k) xs)) else None)"
proof (induction xs arbitrary: n m0)
  case Nil
  then show ?case by (simp split: option.splits)
next
  case (Cons x xs)
  show ?case
    by (simp add: Cons.IH split: option.splits)
qed

lemma buildColorIndexMap_eq:
  "buildColorIndexMap xs k =
     (if k \<in> set xs then Some (length (takeWhile (\<lambda>y. y \<noteq> k) xs)) else None)"
  by (simp add: buildColorIndexMap_def buildColorIndexMap_fold)


lemma setValues_Nil [simp]: "setValues [] = []"
  by (simp add: setValues_def)

lemma targetSize_two:
  assumes "length (normalizedPalette palette) = 2"
  shows "targetSize palette = 2"
  by (simp add: targetSize_eq assms)

lemma paddedPalette_default: "paddedPalette [] = [''#000000'', ''#ffffff'']"
proof -
  have n: "normalizedPalette [] = [''#000000'', ''#ffffff'']"
    by (simp add: normalizedPalette_def setValues_def toLowerCase_def lowerChar_def)
  have t: "targetSize [] = 2" by (rule targetSize_two) (simp add: n)
  show ?thesis by (simp add: paddedPalette_def Let_def n t)
qed

lemma normalizedPalette_single:
  assumes "setValues (map toLowerCase palette) = [c]"
  shows "normalizedPalette palette = [c, c]"
proof -
  have "palette \<noteq> []" using assms by auto
  then show ?thesis using assms by (simp add: normalizedPalette_def Let_def)
qed

lemma paddedPalette_single:
  assumes "setValues (map toLowerCase palette) = [c]"
  shows "paddedPalette palette = [c, c]"
proof -
  have n: "normalizedPalette palette = [c, c]" by (rule normalizedPalette_single [OF assms])
  have t: "targetSize palette = 2" by (rule targetSize_two) (simp add: n)
  show ?thesis by (simp add: paddedPalette_def Let_def n t)
qed

lemma fallbackHex_last: "fallbackHex palette = last (normalizedPalette palette)"
proof -
  have "normalizedPalette palette \<noteq> []" using normalizedPalette_length [of palette] by auto
  then show ?thesis by (simp add: fallbackHex_def Let_def last_conv_nth)
qed

lemma fallbackIndex_eq:
  "fallbackIndex (buildPaletteLookup h palette) =
     (if fallbackHex palette \<in> set (paddedPalette palette)
      then length (takeWhile (\<lambda>y. y \<noteq> fallbackHex palette) (paddedPalette palette)) else 0)"
  by (simp add: buildPaletteLookup_def Let_def buildColorIndexMap_eq)

lemma colorIndexMap_eq:
  "colorIndexMap (buildPaletteLookup h palette) k =
     (if k \<in> set (paddedPalette palette)
      then Some (length (takeWhile (\<lambda>y. y \<noteq> k) (paddedPalette palette))) else None)"
  by (simp add: buildPaletteLookup_def Let_def buildColorIndexMap_eq)

lemma firstIndex_less:
  "k \<in> set xs \<Longrightarrow> length (takeWhile (\<lambda>y. y \<noteq> k) xs) < length xs"
  by (induction xs) auto

lemma firstIndex_nth:
  assumes "k \<in> set xs"
  shows "xs ! length (takeWhile (\<lambda>y. y \<noteq> k) xs) = k"
  using nth_length_takeWhile [OF firstIndex_less [OF assms]] by simp

lemma firstIndex_first:
  assumes "j < length (takeWhile (\<lambda>y. y \<noteq> k) xs)"
  shows "xs ! j \<noteq> k"
proof -
  have "takeWhile (\<lambda>y. y \<noteq> k) xs ! j \<in> set (takeWhile (\<lambda>y. y \<noteq> k) xs)"
    using assms by (rule nth_mem)
  then have "takeWhile (\<lambda>y. y \<noteq> k) xs ! j \<noteq> k" by (auto dest: set_takeWhileD)
  then show ?thesis using takeWhile_nth [OF assms] by simp
qed

lemma firstIndex_distinct:
  "distinct xs \<Longrightarrow> i < length xs \<Longrightarrow> length (takeWhile (\<lambda>y. y \<noteq> xs ! i) xs) = i"
proof (induction xs arbitrary: i)
  case Nil
  then show ?case by simp
next
  case (Cons x xs)
  then show ?case by (cases i) auto
qed

text \<open>
  Claim C6: for every input colour list the padded palette built by buildPaletteLookup
  has a length that is a power of two, at least 2 and at most 256 (and the packed colour
  table \<open>paletteColors\<close> has that length); an empty input is replaced by the black and
  white default, and a single unique colour is duplicated, so that there are two entries.
\<close>

theorem buildPaletteLookup_padded_power_of_two:
  "(\<exists>e. 1 \<le> e \<and> e \<le> 8 \<and> length (paddedPalette palette) = 2 ^ e)
   \<and> 2 \<le> length (paddedPalette palette) \<and> length (paddedPalette palette) \<le> 256
   \<and> length (paletteColors (buildPaletteLookup h palette)) = length (paddedPalette palette)
   \<and> paddedPalette [] = [''#000000'', ''#ffffff'']
   \<and> (setValues (map toLowerCase palette) = [c] \<longrightarrow> paddedPalette palette = [c, c])"
proof -
  have "\<exists>e. 1 \<le> e \<and> e \<le> 8 \<and> length (paddedPalette palette) = 2 ^ e"
    using targetSize_exponent [of palette] targetSize_eq [of palette] by auto
  moreover have "length (paletteColors (buildPaletteLookup h palette)) = length (paddedPalette palette)"
    by (simp add: buildPaletteLookup_def Let_def)
  ultimately show ?thesis
    using targetSize_bounds [of palette] paddedPalette_default paddedPalette_single [of palette c]
    by simp
qed

theorem buildPaletteLookup_padded_power_of_two_witness:
  "setValues (map toLowerCase [''#FFAA00'', ''#ffaa00'']) = [''#ffaa00'']
   \<and> paddedPalette [''#FFAA00'', ''#ffaa00''] = [''#ffaa00'', ''#ffaa00'']
   \<and> length (paddedPalette [''#FFAA00'', ''#ffaa00'']) = 2"
proof -
  have s: "setValues (map toLowerCase [''#FFAA00'', ''#ffaa00'']) = [''#ffaa00'']"
    by (simp add: setValues_def toLowerCase_def lowerChar_def)
  show ?thesis
    using s buildPaletteLookup_padded_power_of_two [of "[''#FFAA00'', ''#ffaa00'']" hexToRgb "''#ffaa00''"] by simp
qed

subsection \<open>colorGridToIndexedPixels\<close>

lemma fold_writes:
  assumes len: "\<And>x b. x \<in> set xs \<Longrightarrow> length (F x b) = length (b :: 'b list)"
    and nth: "\<And>x b i. x \<in> set xs \<Longrightarrow> i < length b \<Longrightarrow>
                F x b ! i = (if hit x i then val i else b ! i)"
  shows "length (fold F xs b) = length b
       \<and> (\<forall>i < length b. fold F xs b ! i = (if \<exists>x\<in>set xs. hit x i then val i else b ! i))"
  using assms
proof (induction xs arbitrary: b)
  case Nil
  then show ?case by simp
next
  case (Cons x xs)
  have l1: "length (F x b) = length b" by (rule Cons.prems(1)) simp
  have n1: "\<And>i. i < length b \<Longrightarrow> F x b ! i = (if hit x i then val i else b ! i)"
    by (rule Cons.prems(2)) simp_all
  have ih: "length (fold F xs (F x b)) = length (F x b)
       \<and> (\<forall>i < length (F x b). fold F xs (F x b) ! i =
             (if \<exists>x\<in>set xs. hit x i then val i else F x b ! i))"
    by (rule Cons.IH) (simp_all add: Cons.prems)
  show ?case using ih l1 n1 by auto
qed

lemma div_mod_offset:
  fixes a n r :: nat
  assumes "r < n"
  shows "(a * n + r) div n = a" and "(a * n + r) mod n = r"
  using assms by simp_all

lemma block_position:
  fixes y k dy w x dx :: nat
  assumes "dy < k" and "x < w" and "dx < k"
  shows "((y * k + dy) * (w * k) + (x * k + dx)) div (w * k) = y * k + dy"
    and "((y * k + dy) * (w * k) + (x * k + dx)) mod (w * k) = x * k + dx"
    and "(y * k + dy) div k = y" and "(x * k + dx) div k = x"
proof -
  have "x * k + dx < x * k + k" using assms(3) by simp
  also have "\<dots> = (x + 1) * k" by simp
  also have "\<dots> \<le> w * k" using assms(2) by (intro mult_right_mono) simp_all
  finally have small: "x * k + dx < w * k" .
  show "((y * k + dy) * (w * k) + (x * k + dx)) div (w * k) = y * k + dy"
    by (rule div_mod_offset(1) [OF small])
  show "((y * k + dy) * (w * k) + (x * k + dx)) mod (w * k) = x * k + dx"
    by (rule div_mod_offset(2) [OF small])
  show "(y * k + dy) div k = y" by (rule div_mod_offset(1) [OF assms(1)])
  show "(x * k + dx) div k = x" by (rule div_mod_offset(1) [OF assms(3)])
qed

lemma grid_fold:
  fixes P :: "nat \<Rightarrow> nat \<Rightarrow> 'b" and w k :: nat
  defines "val \<equiv> \<lambda>i. P ((i div (w * k)) div k) ((i mod (w * k)) div k)"
  shows "length (fold (\<lambda>y. fold (\<lambda>dy. fold (\<lambda>x. fold (\<lambda>dx buffer.
            buffer[(y * k + dy) * (w * k) + (x * k + dx) := P y x])
            [0..<k]) [0..<w]) [0..<k]) [0..<h] b) = length b
     \<and> (\<forall>i < length b. fold (\<lambda>y. fold (\<lambda>dy. fold (\<lambda>x. fold (\<lambda>dx buffer.
            buffer[(y * k + dy) * (w * k) + (x * k + dx) := P y x])
            [0..<k]) [0..<w]) [0..<k]) [0..<h] b ! i =
          (if \<exists>y\<in>set [0..<h]. \<exists>dy\<in>set [0..<k]. \<exists>x\<in>set [0..<w]. \<exists>dx\<in>set [0..<k].
                i = (y * k + dy) * (w * k) + (x * k + dx)
           then val i else b ! i))"
proof (rule fold_writes)
  fix y :: nat and b :: "'b list"
  assume "y \<in> set [0..<h]"
  have lvl_dy: "length (fold (\<lambda>dy. fold (\<lambda>x. fold (\<lambda>dx buffer.
            buffer[(y * k + dy) * (w * k) + (x * k + dx) := P y x])
            [0..<k]) [0..<w]) [0..<k] b) = length b
     \<and> (\<forall>i < length b. fold (\<lambda>dy. fold (\<lambda>x. fold (\<lambda>dx buffer.
            buffer[(y * k + dy) * (w * k) + (x * k + dx) := P y x])
            [0..<k]) [0..<w]) [0..<k] b ! i =
          (if \<exists>dy\<in>set [0..<k]. \<exists>x\<in>set [0..<w]. \<exists>dx\<in>set [0..<k].
                i = (y * k + dy) * (w * k) + (x * k + dx)
           then val i else b ! i))" for b :: "'b list"
  proof (rule fold_writes)
    fix dy :: nat and b :: "'b list"
    assume dy: "dy \<in> set [0..<k]"
    have lvl_x: "length (fold (\<lambda>x. fold (\<lambda>dx buffer.
            buffer[(y * k + dy) * (w * k) + (x * k + dx) := P y x])
            [0..<k]) [0..<w] b) = length b
     \<and> (\<forall>i < length b. fold (\<lambda>x. fold (\<lambda>dx buffer.
            buffer[(y * k + dy) * (w * k) + (x * k + dx) := P y x])
            [0..<k]) [0..<w] b ! i =
          (if \<exists>x\<in>set [0..<w]. \<exists>dx\<in>set [0..<k].
                i = (y * k + dy) * (w * k) + (x * k + dx)
           then val i else b ! i))" for b :: "'b list"
    proof (rule fold_writes)
      fix x :: nat and b :: "'b list"
      assume x: "x \<in> set [0..<w]"
      have lvl_dx: "length (fold (\<lambda>dx buffer.
            buffer[(y * k + dy) * (w * k) + (x * k + dx) := P y x]) [0..<k] b) = length b
        \<and> (\<forall>i < length b. fold (\<lambda>dx buffer.
            buffer[(y * k + dy) * (w * k) + (x * k + dx) := P y x]) [0..<k] b ! i =
          (if \<exists>dx\<in>set [0..<k]. i = (y * k + dy) * (w * k) + (x * k + dx)
           then val i else b ! i))" for b :: "'b list"
      proof (rule fold_writes)
        fix dx :: nat and b :: "'b list" and i :: nat
        assume dx: "dx \<in> set [0..<k]" and i: "i < length b"
        have "val ((y * k + dy) * (w * k) + (x * k + dx)) = P y x"
        proof -
          have a: "dy < k" "x < w" "dx < k" using dy x dx by simp_all
          show ?thesis unfolding val_def by (simp only: block_position [OF a])
        qed
        then show "b[(y * k + dy) * (w * k) + (x * k + dx) := P y x] ! i =
          (if i = (y * k + dy) * (w * k) + (x * k + dx) then val i else b ! i)"
          using i by (simp add: nth_list_update)
      qed simp
      from lvl_dx show "length (fold (\<lambda>dx buffer.
            buffer[(y * k + dy) * (w * k) + (x * k + dx) := P y x]) [0..<k] b) = length b"
        by simp
      fix i assume "i < length b"
      with lvl_dx show "fold (\<lambda>dx buffer.
            buffer[(y * k + dy) * (w * k) + (x * k + dx) := P y x]) [0..<k] b ! i =
          (if \<exists>dx\<in>set [0..<k]. i = (y * k + dy) * (w * k) + (x * k + dx)
           then val i else b ! i)" by simp
    qed
    from lvl_x show "length (fold (\<lambda>x. fold (\<lambda>dx buffer.
            buffer[(y * k + dy) * (w * k) + (x * k + dx) := P y x])
            [0..<k]) [0..<w] b) = length b" by simp
    fix i assume "i < length b"
    with lvl_x show "fold (\<lambda>x. fold (\<lambda>dx buffer.
            buffer[(y * k + dy) * (w * k) + (x * k + dx) := P y x])
            [0..<k]) [0..<w] b ! i =
          (if \<exists>x\<in>set [0..<w]. \<exists>dx\<in>set [0..<k].
                i = (y * k + dy) * (w * k) + (x * k + dx)
           then val i else b ! i)" by simp
  qed
  from lvl_dy show "length (fold (\<lambda>dy. fold (\<lambda>x. fold (\<lambda>dx buffer.
            buffer[(y * k + dy) * (w * k) + (x * k + dx) := P y x])
            [0..<k]) [0..<w]) [0..<k] b) = length b" by simp
  fix i assume "i < length b"
  with lvl_dy show "fold (\<lambda>dy. fold (\<lambda>x. fold (\<lambda>dx buffer.
            buffer[(y * k + dy) * (w * k) + (x * k + dx) := P y x])
            [0..<k]) [0..<w]) [0..<k] b ! i =
          (if \<exists>dy\<in>set [0..<k]. \<exists>x\<in>set [0..<w]. \<exists>dx\<in>set [0..<k].
                i = (y * k + dy) * (w * k) + (x * k + dx)
           then val i else b ! i)" by simp
qed

lemma block_position_exists:
  fixes i w k h :: nat
  assumes "i < (w * k) * (h * k)"
  shows "\<exists>y\<in>set [0..<h]. \<exists>dy\<in>set [0..<k]. \<exists>x\<in>set [0..<w]. \<exists>dx\<in>set [0..<k].
           i = (y * k + dy) * (w * k) + (x * k + dx)"
proof -
  have k0: "0 < k" using assms by (cases k) simp_all
  have wk0: "0 < w * k" using assms by (cases "w * k") simp_all
  define row col where "row = i div (w * k)" and "col = i mod (w * k)"
  define y dy x dx where "y = row div k" and "dy = row mod k"
    and "x = col div k" and "dx = col mod k"
  have "i < (h * k) * (w * k)" using assms by (simp only: mult.commute)
  then have row: "row < h * k" unfolding row_def by (rule less_mult_imp_div_less)
  have col: "col < w * k" unfolding col_def using wk0 by (rule mod_less_divisor)
  have y: "y < h" unfolding y_def using row by (rule less_mult_imp_div_less)
  have x: "x < w" unfolding x_def using col by (rule less_mult_imp_div_less)
  have dy: "dy < k" unfolding dy_def using k0 by (rule mod_less_divisor)
  have dx: "dx < k" unfolding dx_def using k0 by (rule mod_less_divisor)
  have e1: "i = row * (w * k) + col"
    unfolding row_def col_def by (rule div_mult_mod_eq [symmetric])
  have e2: "row = y * k + dy" unfolding y_def dy_def by (rule div_mult_mod_eq [symmetric])
  have e3: "col = x * k + dx" unfolding x_def dx_def by (rule div_mult_mod_eq [symmetric])
  have e: "i = (y * k + dy) * (w * k) + (x * k + dx)"
    using e1 by (simp only: e2 [symmetric] e3 [symmetric])
  show ?thesis
  proof (intro bexI)
    show "i = (y * k + dy) * (w * k) + (x * k + dx)" by (fact e)
  qed (use y dy x dx in simp_all)
qed

lemma colorGridToIndexedPixels_empty:
  "colors = [] \<or> hd colors = [] \<Longrightarrow>
   colorGridToIndexedPixels colors k m fb = Inl (Error ''Color grid is empty.'')"
  by (cases colors) (auto simp: colorGridToIndexedPixels_def)

lemma colorGridToIndexedPixels_nonempty:
  assumes "colors \<noteq> []" and "hd colors \<noteq> []"
  shows "\<exists>buf. colorGridToIndexedPixels colors k m fb = Inr buf
           \<and> length buf = (length (hd colors) * k) * (length colors * k)
           \<and> (\<forall>i < (length (hd colors) * k) * (length colors * k).
                 buf ! i = of_nat (paletteIndexOf m fb
                   (cellHex colors ((i div (length (hd colors) * k)) div k)
                                   ((i mod (length (hd colors) * k)) div k))))"
proof -
  let ?w = "length (hd colors)" and ?h = "length colors"
  obtain r rs where c: "colors = r # rs" using assms(1) by (cases colors) auto
  let ?P = "\<lambda>y x. (of_nat (paletteIndexOf m fb (cellHex colors y x)) :: 8 word)"
  let ?b = "replicate ((?w * k) * (?h * k)) (0 :: 8 word)"
  let ?G = "fold (\<lambda>y. fold (\<lambda>dy. fold (\<lambda>x. fold (\<lambda>dx buffer.
            buffer[(y * k + dy) * (?w * k) + (x * k + dx) := ?P y x])
            [0..<k]) [0..<?w]) [0..<k]) [0..<?h] ?b"
  have eq: "colorGridToIndexedPixels colors k m fb = Inr ?G"
    using assms by (simp add: colorGridToIndexedPixels_def c Let_def)
  from grid_fold [of k ?w ?P ?h ?b]
  have len: "length ?G = length ?b"
    and nth: "\<forall>i < length ?b. ?G ! i =
          (if \<exists>y\<in>set [0..<?h]. \<exists>dy\<in>set [0..<k]. \<exists>x\<in>set [0..<?w]. \<exists>dx\<in>set [0..<k].
                i = (y * k + dy) * (?w * k) + (x * k + dx)
           then ?P ((i div (?w * k)) div k) ((i mod (?w * k)) div k) else ?b ! i)"
    by blast+
  have "\<forall>i < (?w * k) * (?h * k). ?G ! i = ?P ((i div (?w * k)) div k) ((i mod (?w * k)) div k)"
  proof (intro allI impI)
    fix i assume i: "i < (?w * k) * (?h * k)"
    from block_position_exists [OF i] nth i
    show "?G ! i = ?P ((i div (?w * k)) div k) ((i mod (?w * k)) div k)" by simp
  qed
  with eq len show ?thesis by simp
qed

text \<open>
  Claim C10: colorGridToIndexedPixels throws (the error "Color grid is empty.") if and
  only if the grid has zero rows or zero columns, the width being the length of the first
  row; for every other grid of width \<open>w\<close> and height \<open>h\<close> and every block size \<open>k\<close> it
  returns a buffer of exactly \<open>(w * k) * (h * k)\<close> entries.
\<close>

theorem colorGridToIndexedPixels_throws_iff_empty:
  "(colors = [] \<or> hd colors = [] \<longrightarrow>
      colorGridToIndexedPixels colors k m fb = Inl (Error ''Color grid is empty.''))
   \<and> (isl (colorGridToIndexedPixels colors k m fb) \<longleftrightarrow> colors = [] \<or> hd colors = [])
   \<and> (colors \<noteq> [] \<and> hd colors \<noteq> [] \<longrightarrow>
        (\<exists>buf. colorGridToIndexedPixels colors k m fb = Inr buf
           \<and> length buf = (length (hd colors) * k) * (length colors * k)))"
proof (cases "colors = [] \<or> hd colors = []")
  case True
  then show ?thesis using colorGridToIndexedPixels_empty [of colors k m fb] by auto
next
  case False
  then have "colors \<noteq> []" "hd colors \<noteq> []" by simp_all
  from colorGridToIndexedPixels_nonempty [OF this, of k m fb] False
  show ?thesis by auto
qed

theorem colorGridToIndexedPixels_throws_iff_empty_witness:
  "[[''#000000'', ''#ffffff'']] \<noteq> [] \<and> hd [[''#000000'', ''#ffffff'']] \<noteq> []
   \<and> (\<exists>buf. colorGridToIndexedPixels [[''#000000'', ''#ffffff'']] 2 Map.empty 0 = Inr buf
          \<and> length buf = (2 * 2) * (1 * 2))
   \<and> colorGridToIndexedPixels [] 2 Map.empty 0 = Inl (Error ''Color grid is empty.'')"
  using colorGridToIndexedPixels_throws_iff_empty [of "[[''#000000'', ''#ffffff'']]" 2 Map.empty 0]
    colorGridToIndexedPixels_throws_iff_empty [of "[]" 2 Map.empty 0]
  by simp

subsection \<open>The fallback slot\<close>

lemma paddedPalette_under_cap:
  assumes "length (normalizedPalette palette) \<le> 256"
  shows "paddedPalette palette =
           normalizedPalette palette
           @ replicate (targetSize palette - length (normalizedPalette palette)) (fallbackHex palette)"
proof -
  have "length (normalizedPalette palette) \<le> targetSize palette"
    using targetSize_covers [of palette] assms by simp
  then show ?thesis by (simp add: paddedPalette_def Let_def)
qed

lemma paddedPalette_over_cap:
  assumes "256 < length (normalizedPalette palette)"
  shows "paddedPalette palette = take 256 (normalizedPalette palette)"
proof -
  have "min 256 (length (normalizedPalette palette)) = 2 ^ 8" using assms by simp
  then have "targetSize palette = 2 ^ ceillog2 (2 ^ 8)" by (simp only: targetSize_eq)
  then have t: "targetSize palette = 256" by (simp only: ceillog2_2_power) simp
  show ?thesis using assms by (simp add: paddedPalette_def Let_def t)
qed

lemma normalizedPalette_default: "normalizedPalette [] = [''#000000'', ''#ffffff'']"
  by (simp add: normalizedPalette_def setValues_def toLowerCase_def lowerChar_def)

lemma normalizedPalette_long:
  assumes "2 < length (normalizedPalette palette)"
  shows "normalizedPalette palette = setValues (map toLowerCase palette)"
proof -
  let ?n = "setValues (map toLowerCase (if palette \<noteq> [] then palette else [''#000000'', ''#ffffff'']))"
  have ne: "palette \<noteq> []"
  proof
    assume "palette = []"
    then have "normalizedPalette palette = [''#000000'', ''#ffffff'']"
      by (simp only: normalizedPalette_default)
    with assms show False by simp
  qed
  have "length ?n \<noteq> 1"
  proof
    assume "length ?n = 1"
    then have "length (normalizedPalette palette) = 2"
      by (simp add: normalizedPalette_def Let_def)
    with assms show False by simp
  qed
  then show ?thesis using ne by (simp add: normalizedPalette_def Let_def)
qed

lemma fallbackIndex_over_cap:
  assumes "256 < length (normalizedPalette palette)"
  shows "fallbackHex palette \<notin> set (paddedPalette palette)"
    and "fallbackIndex (buildPaletteLookup h palette) = 0"
proof -
  let ?n = "normalizedPalette palette"
  have "?n = setValues (map toLowerCase palette)"
    using assms by (intro normalizedPalette_long) simp
  then have dist: "distinct ?n" by simp
  have split: "?n = take 256 ?n @ drop 256 ?n" by simp
  have "drop 256 ?n \<noteq> []" using assms by simp
  then have "last ?n = last (drop 256 ?n)" using assms by (simp add: last_drop)
  then have "last ?n \<in> set (drop 256 ?n)" using \<open>drop 256 ?n \<noteq> []\<close> by (metis last_in_set)
  moreover have "set (take 256 ?n) \<inter> set (drop 256 ?n) = {}"
    using dist by (metis split distinct_append)
  ultimately have "last ?n \<notin> set (take 256 ?n)" by blast
  then show notin: "fallbackHex palette \<notin> set (paddedPalette palette)"
    by (simp add: fallbackHex_last paddedPalette_over_cap [OF assms])
  then show "fallbackIndex (buildPaletteLookup h palette) = 0"
    by (simp add: fallbackIndex_eq)
qed

lemma fallbackIndex_under_cap:
  assumes "length (normalizedPalette palette) \<le> 256"
  shows "fallbackHex palette \<in> set (paddedPalette palette)"
    and "fallbackIndex (buildPaletteLookup h palette) =
           length (takeWhile (\<lambda>y. y \<noteq> fallbackHex palette) (normalizedPalette palette))"
proof -
  let ?n = "normalizedPalette palette"
  have ne: "?n \<noteq> []" using normalizedPalette_length [of palette] by auto
  then have mem: "fallbackHex palette \<in> set ?n" by (simp add: fallbackHex_last)
  then show in_padded: "fallbackHex palette \<in> set (paddedPalette palette)"
    by (simp add: paddedPalette_under_cap [OF assms])
  show "fallbackIndex (buildPaletteLookup h palette) =
           length (takeWhile (\<lambda>y. y \<noteq> fallbackHex palette) ?n)"
    using in_padded mem
    by (simp add: fallbackIndex_eq paddedPalette_under_cap [OF assms] takeWhile_append1)
qed

lemma fallbackIndex_original:
  assumes "palette \<noteq> []" and "length (normalizedPalette palette) \<le> 256"
  shows "fallbackHex palette = last (setValues (map toLowerCase palette))"
    and "fallbackIndex (buildPaletteLookup h palette) = length (setValues (map toLowerCase palette)) - 1"
proof -
  let ?d = "setValues (map toLowerCase palette)"
  have dne: "?d \<noteq> []" using assms(1) by simp
  have dist: "distinct ?d" by simp
  have idx: "length (takeWhile (\<lambda>y. y \<noteq> last ?d) ?d) = length ?d - 1"
    using firstIndex_distinct [OF dist, of "length ?d - 1"] dne by (simp add: last_conv_nth)
  show a: "fallbackHex palette = last ?d"
  proof (cases "length ?d = 1")
    case True
    then obtain c where c: "?d = [c]" by (cases ?d) auto
    show ?thesis by (simp add: fallbackHex_last normalizedPalette_single [OF c] c)
  next
    case False
    then have "normalizedPalette palette = ?d" using assms(1) dne
      by (simp add: normalizedPalette_def Let_def)
    then show ?thesis by (simp add: fallbackHex_last)
  qed
  show "fallbackIndex (buildPaletteLookup h palette) = length ?d - 1"
  proof (cases "length ?d = 1")
    case True
    then obtain c where c: "?d = [c]" by (cases ?d) auto
    show ?thesis
      by (simp add: fallbackIndex_under_cap(2) [OF assms(2)] a normalizedPalette_single [OF c] c)
  next
    case False
    then have "normalizedPalette palette = ?d" using assms(1) dne
      by (simp add: normalizedPalette_def Let_def)
    then show ?thesis
      by (simp add: fallbackIndex_under_cap(2) [OF assms(2)] a idx)
  qed
qed

lemma hexDigit_inj: "hexDigit a = hexDigit b \<Longrightarrow> a mod 16 = b mod 16"
proof -
  assume e: "hexDigit a = hexDigit b"
  have d: "distinct ''0123456789abcdef''" by simp
  have l: "a mod 16 < length ''0123456789abcdef''" "b mod 16 < length ''0123456789abcdef''"
    by simp_all
  from e show ?thesis
    unfolding hexDigit_def using nth_eq_iff_index_eq [OF d l] by blast
qed

lemma hexDigit_lower: "lowerChar (hexDigit d) = hexDigit d"
proof -
  have "hexDigit d \<in> set ''0123456789abcdef''"
    unfolding hexDigit_def by (rule nth_mem) simp
  moreover have "\<forall>c\<in>set ''0123456789abcdef''. lowerChar c = c"
    by (simp add: lowerChar_def)
  ultimately show ?thesis by blast
qed

lemma hexColour_lower: "toLowerCase (hexColour n) = hexColour n"
  by (simp add: toLowerCase_def hexColour_def hexDigit_lower) (simp add: lowerChar_def)

lemma hexColour_inj:
  assumes "hexColour m = hexColour n" and "m < 4096" and "n < 4096"
  shows "m = n"
proof -
  from assms(1) have d: "(m div 256) mod 16 = (n div 256) mod 16"
    "(m div 16) mod 16 = (n div 16) mod 16" "m mod 16 = n mod 16"
    by (auto simp: hexColour_def dest: hexDigit_inj)
  have "m div 256 < 16" "n div 256 < 16" using assms(2,3) by simp_all
  then have hi: "m div 256 = n div 256" using d(1) by simp
  have "m div 16 div 16 = n div 16 div 16" using hi by (simp add: div_mult2_eq [symmetric])
  then have "m div 16 div 16 * 16 + m div 16 mod 16 = n div 16 div 16 * 16 + n div 16 mod 16"
    using d(2) by simp
  then have mid: "m div 16 = n div 16" by (simp only: div_mult_mod_eq)
  have "m div 16 * 16 + m mod 16 = n div 16 * 16 + n mod 16" using mid d(3) by simp
  then show ?thesis by (simp only: div_mult_mod_eq)
qed

lemma palette257_distinct: "distinct palette257"
proof -
  have "inj_on hexColour (set [0..<257])"
    by (rule inj_onI) (auto intro: hexColour_inj)
  then show ?thesis by (simp add: palette257_def distinct_map)
qed

lemma palette257_lower: "map toLowerCase palette257 = palette257"
  by (simp add: palette257_def hexColour_lower)

lemma palette257_normalized: "normalizedPalette palette257 = palette257"
proof -
  have l: "length palette257 = 257" by (simp add: palette257_def)
  then have ne: "palette257 \<noteq> []" by auto
  have s: "setValues (map toLowerCase palette257) = palette257"
    by (simp add: palette257_lower setValues_distinct_id palette257_distinct)
  show ?thesis using ne l by (simp add: normalizedPalette_def Let_def s)
qed

lemma fallbackIndex_in_range:
  "fallbackIndex (buildPaletteLookup h palette) < length (paddedPalette palette)"
  using targetSize_bounds [of palette] firstIndex_less [of "fallbackHex palette" "paddedPalette palette"]
  by (simp add: fallbackIndex_eq)

text \<open>
  Claim C4, as stated: for every input colour list, fallbackIndex is the slot of the last
  colour of the deduplicated, lower-cased list. It fails when that list has more than 256
  colours: the table keeps the first 256, the last colour (here \<^verbatim>\<open>#000100\<close>) is cut off
  and occupies no slot, and \<^verbatim>\<open>colorIndexMap.get(fallbackHex) ?? 0\<close> gives slot 0, which
  holds the first colour.
\<close>

theorem fallback_slot_lost_beyond_cap:
  "last (setValues (map toLowerCase palette257)) = ''#000100''
   \<and> fallbackIndex (buildPaletteLookup hexToRgb palette257) = 0
   \<and> paddedPalette palette257 ! 0 = ''#000000''
   \<and> ''#000100'' \<notin> set (paddedPalette palette257)"
proof -
  have l: "length palette257 = 257" by (simp add: palette257_def)
  have over: "256 < length (normalizedPalette palette257)"
    by (simp add: palette257_normalized l)
  have s: "setValues (map toLowerCase palette257) = palette257"
    by (simp add: palette257_lower setValues_distinct_id palette257_distinct)
  have ne: "palette257 \<noteq> []" using l by auto
  have "last palette257 = palette257 ! (length palette257 - 1)" by (rule last_conv_nth [OF ne])
  then have "last palette257 = palette257 ! 256" by (simp only: l) simp
  then have "last palette257 = hexColour 256" by (simp add: palette257_def)
  then have lastc: "last palette257 = ''#000100''" by (simp add: hexColour_def hexDigit_def)
  have "paddedPalette palette257 ! 0 = palette257 ! 0"
    by (simp add: paddedPalette_over_cap [OF over] palette257_normalized)
  also have "\<dots> = hexColour 0" by (simp add: palette257_def)
  also have "\<dots> = ''#000000''" by (simp add: hexColour_def hexDigit_def)
  finally have first: "paddedPalette palette257 ! 0 = ''#000000''" .
  have "fallbackHex palette257 = ''#000100''"
    by (simp add: fallbackHex_last palette257_normalized lastc)
  with fallbackIndex_over_cap(1) [OF over] fallbackIndex_over_cap(2) [OF over, of hexToRgb]
    s lastc first
  show ?thesis by simp
qed

text \<open>
  Claim C4, amended: for every input colour list whose deduplicated, lower-cased form
  (\<open>normalizedPalette\<close>, which for a non-empty input is that form, a single colour being
  doubled) has at most 256 colours, fallbackIndex is the slot of the last colour of that
  list: the first position of that colour in the padded table, which for a non-empty
  input is the length of the deduplicated list minus one. With more than 256 distinct
  colours the last colour is not in the table and fallbackIndex is 0.
\<close>

theorem buildPaletteLookup_fallbackIndex:
  "(length (normalizedPalette palette) \<le> 256 \<longrightarrow>
      fallbackIndex (buildPaletteLookup h palette) < length (paddedPalette palette)
    \<and> paddedPalette palette ! fallbackIndex (buildPaletteLookup h palette)
        = last (normalizedPalette palette)
    \<and> (\<forall>j < fallbackIndex (buildPaletteLookup h palette).
          paddedPalette palette ! j \<noteq> last (normalizedPalette palette))
    \<and> colorIndexMap (buildPaletteLookup h palette) (last (normalizedPalette palette))
        = Some (fallbackIndex (buildPaletteLookup h palette))
    \<and> (palette \<noteq> [] \<longrightarrow>
          last (normalizedPalette palette) = last (setValues (map toLowerCase palette))
        \<and> fallbackIndex (buildPaletteLookup h palette)
            = length (setValues (map toLowerCase palette)) - 1))
   \<and> (256 < length (normalizedPalette palette) \<longrightarrow>
        fallbackIndex (buildPaletteLookup h palette) = 0
      \<and> last (normalizedPalette palette) \<notin> set (paddedPalette palette))"
proof (cases "length (normalizedPalette palette) \<le> 256")
  case True
  let ?L = "buildPaletteLookup h palette"
  let ?f = "fallbackHex palette"
  have mem: "?f \<in> set (paddedPalette palette)" by (rule fallbackIndex_under_cap(1) [OF True])
  then have idx: "fallbackIndex ?L = length (takeWhile (\<lambda>y. y \<noteq> ?f) (paddedPalette palette))"
    by (simp add: fallbackIndex_eq)
  have 1: "fallbackIndex ?L < length (paddedPalette palette)" by (rule fallbackIndex_in_range)
  have 2: "paddedPalette palette ! fallbackIndex ?L = ?f"
    unfolding idx by (rule firstIndex_nth [OF mem])
  have 3: "\<forall>j < fallbackIndex ?L. paddedPalette palette ! j \<noteq> ?f"
    unfolding idx by (auto dest: firstIndex_first)
  have 4: "colorIndexMap ?L ?f = Some (fallbackIndex ?L)"
    using mem by (simp add: colorIndexMap_eq idx)
  have 5: "palette \<noteq> [] \<longrightarrow> ?f = last (setValues (map toLowerCase palette))
        \<and> fallbackIndex ?L = length (setValues (map toLowerCase palette)) - 1"
    using fallbackIndex_original(1) [OF _ True] fallbackIndex_original(2) [OF _ True, of h]
    by blast
  from True 1 2 3 4 5 show ?thesis by (simp add: fallbackHex_last)
next
  case False
  then have over: "256 < length (normalizedPalette palette)" by simp
  from fallbackIndex_over_cap(1) [OF over] fallbackIndex_over_cap(2) [OF over, of h] over
  show ?thesis by (simp add: fallbackHex_last)
qed

theorem buildPaletteLookup_fallbackIndex_witness:
  "length (normalizedPalette [''#0F380F'', ''#306230'', ''#8bac0f'']) \<le> 256
   \<and> [''#0F380F'', ''#306230'', ''#8bac0f''] \<noteq> []
   \<and> fallbackIndex (buildPaletteLookup hexToRgb [''#0F380F'', ''#306230'', ''#8bac0f''])
       = length (setValues (map toLowerCase [''#0F380F'', ''#306230'', ''#8bac0f''])) - 1
   \<and> paddedPalette [''#0F380F'', ''#306230'', ''#8bac0f'']
        ! fallbackIndex (buildPaletteLookup hexToRgb [''#0F380F'', ''#306230'', ''#8bac0f''])
       = last (normalizedPalette [''#0F380F'', ''#306230'', ''#8bac0f''])
   \<and> 256 < length (normalizedPalette palette257)
   \<and> fallbackIndex (buildPaletteLookup hexToRgb palette257) = 0"
proof -
  have n: "normalizedPalette [''#0F380F'', ''#306230'', ''#8bac0f'']
            = [''#0f380f'', ''#306230'', ''#8bac0f'']"
    by (simp add: normalizedPalette_def setValues_def toLowerCase_def lowerChar_def)
  have small: "length (normalizedPalette [''#0F380F'', ''#306230'', ''#8bac0f'']) \<le> 256"
    by (simp add: n)
  have "length palette257 = 257" by (simp add: palette257_def)
  then have big: "256 < length (normalizedPalette palette257)"
    by (simp only: palette257_normalized)
  have ne: "[''#0F380F'', ''#306230'', ''#8bac0f''] \<noteq> []" by simp
  show ?thesis
    using small big ne
      buildPaletteLookup_fallbackIndex [of "[''#0F380F'', ''#306230'', ''#8bac0f'']" hexToRgb]
      buildPaletteLookup_fallbackIndex [of palette257 hexToRgb]
    by blast
qed

subsection \<open>The per-cell lookup\<close>









subsection \<open>quantizeFramePixels\<close>









lemma readByte_in_range:
  "0 \<le> i \<Longrightarrow> nat i < length pixels \<Longrightarrow> readByte pixels i = Some (uint (pixels ! nat i))"
  by (simp add: readByte_def)






subsection \<open>extractGifSource\<close>

lemma length_fillRange [simp]: "length (fillRange buffer v s e) = length buffer"
  by (simp add: fillRange_def)














subsection \<open>The job-id discipline\<close>

lemma jobRef_step_mono: "jobRef st \<le> jobRef (step e st)"
  by (cases e) (auto simp: rebuild_def finalize_def fail_def imageOnload_def Let_def
      split: option.splits sum.splits)

lemma jobRef_run_mono: "jobRef st \<le> jobRef (run es st)"
proof (induction es arbitrary: st)
  case Nil
  then show ?case by (simp add: run_def)
next
  case (Cons e es)
  have "jobRef st \<le> jobRef (step e st)" by (rule jobRef_step_mono)
  also have "\<dots> \<le> jobRef (run es (step e st))" by (rule Cons.IH)
  finally show ?case by (simp add: run_def)
qed

lemma hasSource_step: "hasSource (step e st) = hasSource st"
  by (cases e) (auto simp: rebuild_def finalize_def fail_def imageOnload_def Let_def
      split: option.splits sum.splits)

lemma hasSource_run: "hasSource (run es st) = hasSource st"
  by (induction es arbitrary: st) (simp_all add: run_def hasSource_step)

lemma finalize_stale:
  assumes "jobRef st \<noteq> jobId"
  shows "finalize jobId ps url v ns st
           = st\<lparr> revokedUrls := revokedUrls st @ (if take 5 url = ''blob:'' then [url] else []) \<rparr>"
  using assms by (simp add: finalize_def)

lemma fail_stale: "jobRef st \<noteq> jobId \<Longrightarrow> fail jobId msg detail st = st"
  by (simp add: fail_def)

lemma imageOnload_stale: "jobRef st \<noteq> jobId \<Longrightarrow> imageOnload jobId ps outcome st = st"
  by (simp add: imageOnload_def)

lemma finalize_current:
  assumes "jobRef st = jobId"
  shows "resultPreview (finalize jobId ps url v ns st) = Some url"
    and "status (finalize jobId ps url v ns st) = ns"
    and "isProcessing (finalize jobId ps url v ns st) = False"
    and "revokedUrls (finalize jobId ps url v ns st) = revokedUrls st"
  using assms by (simp_all add: finalize_def Let_def split: option.splits)

lemma rebuild_allocates:
  "hasSource st \<Longrightarrow> jobRef (rebuild st) = jobRef st + 1"
  by (simp add: rebuild_def)

text \<open>
  Claim C3: let trigger A allocate a job id and a later trigger B allocate another, with
  any events in between and after. B's id is higher than A's, and whenever A's completion
  arrives afterwards (in particular while B's id is current) it is not committed: the
  displayed result, the vector data, the status and the processing flag stay as they are,
  and a blob URL that A created is revoked in that same call. The same holds for A's
  failure report and for A's image-load handler. A call of finalize changes the displayed
  state only for the job whose id is the current job id, and that job's output is
  committed.
\<close>

theorem job_supersession:
  assumes src: "hasSource st"
    and A: "stA = rebuild st"
    and B: "stB = rebuild (run between stA)"
    and now: "now = run after stB"
  shows "jobRef stA < jobRef stB
       \<and> jobRef stA \<noteq> jobRef now
       \<and> resultPreview (finalize (jobRef stA) ps url v ns now) = resultPreview now
       \<and> vectorData (finalize (jobRef stA) ps url v ns now) = vectorData now
       \<and> status (finalize (jobRef stA) ps url v ns now) = status now
       \<and> isProcessing (finalize (jobRef stA) ps url v ns now) = isProcessing now
       \<and> jobRef (finalize (jobRef stA) ps url v ns now) = jobRef now
       \<and> (take 5 url = ''blob:'' \<longrightarrow>
            url \<in> set (revokedUrls (finalize (jobRef stA) ps url v ns now)))
       \<and> fail (jobRef stA) msg detail now = now
       \<and> imageOnload (jobRef stA) ps outcome now = now
       \<and> (finalize j ps url v ns now
              \<noteq> now\<lparr> revokedUrls := revokedUrls (finalize j ps url v ns now) \<rparr>
            \<longrightarrow> j = jobRef now)
       \<and> (jobRef now = jobRef stB \<longrightarrow>
            resultPreview (finalize (jobRef stB) ps' url' v' ns' now) = Some url'
          \<and> status (finalize (jobRef stB) ps' url' v' ns' now) = ns'
          \<and> isProcessing (finalize (jobRef stB) ps' url' v' ns' now) = False)"
proof -
  have "hasSource (run between stA)" using src by (simp add: hasSource_run A rebuild_def)
  then have "jobRef stB = jobRef (run between stA) + 1" unfolding B by (rule rebuild_allocates)
  moreover have "jobRef stA \<le> jobRef (run between stA)" by (rule jobRef_run_mono)
  ultimately have lt: "jobRef stA < jobRef stB" by simp
  have "jobRef stB \<le> jobRef now" unfolding now by (rule jobRef_run_mono)
  with lt have stale: "jobRef now \<noteq> jobRef stA" by simp
  have only: "finalize j ps url v ns now
                \<noteq> now\<lparr> revokedUrls := revokedUrls (finalize j ps url v ns now) \<rparr>
            \<longrightarrow> j = jobRef now"
    by (auto simp: finalize_def)
  show ?thesis
    using lt stale only finalize_current [of now "jobRef stB" ps' url' v' ns']
    by (simp add: finalize_stale [OF stale] fail_stale [OF stale] imageOnload_stale [OF stale])
qed

theorem job_supersession_witness:
  "hasSource loadedState
   \<and> jobRef (rebuild loadedState) = 1
   \<and> jobRef (rebuild (run [] (rebuild loadedState))) = 2
   \<and> jobRef (run [Finalize 2 12 ''blob:b'' None []] (rebuild (run [] (rebuild loadedState)))) = 2
   \<and> resultPreview (finalize 1 12 ''blob:a'' None []
        (run [Finalize 2 12 ''blob:b'' None []] (rebuild (run [] (rebuild loadedState)))))
       = Some ''blob:b''
   \<and> take 5 ''blob:a'' = ''blob:''
   \<and> ''blob:a'' \<in> set (revokedUrls (finalize 1 12 ''blob:a'' None []
        (run [Finalize 2 12 ''blob:b'' None []] (rebuild (run [] (rebuild loadedState))))))
   \<and> resultPreview (finalize 2 12 ''blob:c'' None []
        (run [Finalize 2 12 ''blob:b'' None []] (rebuild (run [] (rebuild loadedState)))))
       = Some ''blob:c''"
proof -
  let ?stA = "rebuild loadedState"
  let ?stB = "rebuild (run [] ?stA)"
  let ?now = "run [Finalize 2 12 ''blob:b'' None []] ?stB"
  have h: "hasSource loadedState" by (simp add: loadedState_def)
  have a: "jobRef ?stA = 1" by (simp add: rebuild_def loadedState_def)
  have b: "jobRef ?stB = 2" by (simp add: rebuild_def loadedState_def run_def)
  have n: "jobRef ?now = 2" "resultPreview ?now = Some ''blob:b''"
    by (simp_all add: rebuild_def loadedState_def run_def finalize_def)
  have blob: "take 5 ''blob:a'' = ''blob:''" by simp
  have cur: "jobRef ?now = jobRef ?stB" by (simp only: n b)
  note t = job_supersession [OF h refl refl refl,
      where between = "[]" and after = "[Finalize 2 12 ''blob:b'' None []]" and ps = 12
        and url = "''blob:a''" and v = None and ns = "[]"
        and ps' = 12 and url' = "''blob:c''" and v' = None and ns' = "[]"]
  from t have "resultPreview (finalize (jobRef ?stA) 12 ''blob:a'' None [] ?now) = resultPreview ?now"
    by blast
  then have r: "resultPreview (finalize 1 12 ''blob:a'' None [] ?now) = Some ''blob:b''"
    by (simp only: a n)
  from t blob have "''blob:a'' \<in> set (revokedUrls (finalize (jobRef ?stA) 12 ''blob:a'' None [] ?now))"
    by blast
  then have v: "''blob:a'' \<in> set (revokedUrls (finalize 1 12 ''blob:a'' None [] ?now))"
    by (simp only: a)
  from t cur have "resultPreview (finalize (jobRef ?stB) 12 ''blob:c'' None [] ?now) = Some ''blob:c''"
    by blast
  then have c: "resultPreview (finalize 2 12 ''blob:c'' None [] ?now) = Some ''blob:c''"
    by (simp only: b)
  from h a b n(1) r blob v c show ?thesis by blast
qed

end
